theory Spec2Isabelle
  imports Complex_Main
begin

section \<open>GridIndex2D: a uniform grid over 2D points\<close>

text \<open>
  A shallow embedding of \<^verbatim>\<open>include/grid_index.h\<close>.

  The class template \<^verbatim>\<open>GridIndex2D<T>\<close> is modelled over a coordinate type
  \<open>'a\<close> of sort \<open>floor_ceiling\<close>: an ordered field with \<open>floor\<close> and \<open>ceiling\<close>
  (the rationals and the reals are instances). Over such a type the arithmetic is exact.
  The constructor is modelled a second time for \<^verbatim>\<open>T = double\<close>, with the difference and
  the quotient that give the dimensions rounded as IEEE 754 binary64 rounds them, because
  the number of cells depends on that rounding. NaN and the infinities are outside the model.

  The C++ type \<^verbatim>\<open>int\<close> is modelled by \<open>int\<close> with its range written out, taken as the
  usual 32 bits. C++ leaves the behaviour undefined where a floating value is converted to
  an \<^verbatim>\<open>int\<close> that cannot hold it, where signed arithmetic overflows and where a vector
  is indexed out of range: each of these is a branch of the model that returns an error value.
  \<^verbatim>\<open>size_t\<close> values (point indices, sizes, counts) are natural numbers; allocation
  failure is outside the model.
\<close>

subsection \<open>Outcomes\<close>

datatype error =
    InvalidParameter  \<comment> \<open>\<^verbatim>\<open>std::invalid_argument\<close>, thrown by the constructor\<close>
  | IntOverflow       \<comment> \<open>undefined: a value does not fit \<^verbatim>\<open>int\<close>\<close>
  | OutOfRange        \<comment> \<open>undefined: \<^verbatim>\<open>grid_[cell_id]\<close> outside the vector\<close>

definition and_then :: "error + 'b \<Rightarrow> ('b \<Rightarrow> error + 'c) \<Rightarrow> error + 'c" where
  "and_then r f = (case r of Inl e \<Rightarrow> Inl e | Inr v \<Rightarrow> f v)"

subsection \<open>The type \<^verbatim>\<open>int\<close>\<close>

definition INT_MAX :: int where
  "INT_MAX = 2147483647"

definition INT_MIN :: int where
  "INT_MIN = - 2147483648"

definition static_cast_int :: "int \<Rightarrow> error + int" where
  \<comment> \<open>\<^verbatim>\<open>static_cast<int>(v)\<close> for a floating value \<open>v\<close> that is already integral (a result of
      \<^verbatim>\<open>std::floor\<close> or \<^verbatim>\<open>std::ceil\<close>)\<close>
  "static_cast_int z = (if INT_MIN \<le> z \<and> z \<le> INT_MAX then Inr z else Inl IntOverflow)"

definition int_mul :: "int \<Rightarrow> int \<Rightarrow> error + int" where
  \<comment> \<open>\<^verbatim>\<open>a * b\<close> on \<^verbatim>\<open>int\<close>\<close>
  "int_mul a b = static_cast_int (a * b)"

definition int_inc :: "int \<Rightarrow> error + int" where
  \<comment> \<open>\<^verbatim>\<open>i++\<close> on \<^verbatim>\<open>int\<close>\<close>
  "int_inc i = static_cast_int (i + 1)"

definition int_dec :: "int \<Rightarrow> error + int" where
  \<comment> \<open>\<^verbatim>\<open>i--\<close> on \<^verbatim>\<open>int\<close>\<close>
  "int_dec i = static_cast_int (i - 1)"

subsection \<open>The object\<close>

type_synonym index = nat

record 'a GridIndex2D =
  x_start :: 'a
  x_end :: 'a
  x_step :: 'a
  y_start :: 'a
  y_end :: 'a
  y_step :: 'a
  nx :: int
  ny :: int
  grid :: "index list list"

text \<open>The constructor \<^verbatim>\<open>GridIndex2D(x_start, x_end, x_step, y_start, y_end, y_step)\<close>.\<close>

definition GridIndex2D_new ::
  "'a::floor_ceiling \<Rightarrow> 'a \<Rightarrow> 'a \<Rightarrow> 'a \<Rightarrow> 'a \<Rightarrow> 'a \<Rightarrow> error + 'a GridIndex2D" where
  "GridIndex2D_new xs xe xst ys ye yst =
     (if xst \<le> 0 \<or> yst \<le> 0 then Inl InvalidParameter
      else if xs \<ge> xe \<or> ys \<ge> ye then Inl InvalidParameter
      else
        and_then (static_cast_int \<lceil>(xe - xs) / xst\<rceil>) (\<lambda>n_x.
        and_then (static_cast_int \<lceil>(ye - ys) / yst\<rceil>) (\<lambda>n_y.
        and_then (int_mul n_x n_y) (\<lambda>n.
          Inr \<lparr>x_start = xs, x_end = xe, x_step = xst,
               y_start = ys, y_end = ye, y_step = yst,
               nx = n_x, ny = n_y, grid = replicate (nat n) []\<rparr>))))"

subsection \<open>The constructor for doubles\<close>

text \<open>
  Doubles are the rationals that binary64 represents. \<open>binary64\<close> rounds a rational to the
  nearest double, ties to the even significand: with \<open>e\<close> the exponent of the binade of
  \<open>v\<close>, the largest \<open>e\<close> in \<open>[-1022, 1023]\<close> with \<open>pow2 e \<le> |v|\<close> (the subnormals share
  \<open>-1022\<close>), neighbouring doubles are \<open>pow2 (e - 52)\<close> apart and \<open>v\<close> goes to the nearest
  multiple. Every IEEE operation returns the rounded exact result. Results beyond the
  largest finite double are not modelled.
\<close>

definition pow2 :: "int \<Rightarrow> rat" where
  "pow2 k = 2 powi k"

fun binade_from :: "rat \<Rightarrow> int \<Rightarrow> nat \<Rightarrow> int" where
  "binade_from a e 0 = e"
| "binade_from a e (Suc n) = (if pow2 e \<le> a then e else binade_from a (e - 1) n)"

definition binade :: "rat \<Rightarrow> int" where
  "binade v = binade_from \<bar>v\<bar> 1023 2045"

definition round_half_even :: "rat \<Rightarrow> int" where
  "round_half_even x =
     (let f = \<lfloor>x\<rfloor>; r = x - of_int f
      in if r < 1 / 2 then f else if 1 / 2 < r then f + 1 else if even f then f else f + 1)"

definition binary64 :: "rat \<Rightarrow> rat" where
  "binary64 v =
     (if v = 0 then 0
      else let ulp = pow2 (max (binade v) (- 1022) - 52)
           in of_int (round_half_even (v / ulp)) * ulp)"

text \<open>
  The constructor \<^verbatim>\<open>GridIndex2D<double>(...)\<close> on doubles: as \<open>GridIndex2D_new\<close>, with
  \<^verbatim>\<open>x_end - x_start\<close> rounded and its quotient by \<^verbatim>\<open>x_step\<close> rounded again;
  \<^verbatim>\<open>std::ceil\<close> is exact.
\<close>

definition GridIndex2D_double_new ::
  "rat \<Rightarrow> rat \<Rightarrow> rat \<Rightarrow> rat \<Rightarrow> rat \<Rightarrow> rat \<Rightarrow> error + rat GridIndex2D" where
  "GridIndex2D_double_new xs xe xst ys ye yst =
     (if xst \<le> 0 \<or> yst \<le> 0 then Inl InvalidParameter
      else if xs \<ge> xe \<or> ys \<ge> ye then Inl InvalidParameter
      else
        and_then (static_cast_int \<lceil>binary64 (binary64 (xe - xs) / xst)\<rceil>) (\<lambda>n_x.
        and_then (static_cast_int \<lceil>binary64 (binary64 (ye - ys) / yst)\<rceil>) (\<lambda>n_y.
        and_then (int_mul n_x n_y) (\<lambda>n.
          Inr \<lparr>x_start = xs, x_end = xe, x_step = xst,
               y_start = ys, y_end = ye, y_step = yst,
               nx = n_x, ny = n_y, grid = replicate (nat n) []\<rparr>))))"

subsection \<open>Coordinates to cells\<close>

definition get_cell_x :: "'a::floor_ceiling GridIndex2D \<Rightarrow> 'a \<Rightarrow> error + int" where
  "get_cell_x g x =
     and_then (static_cast_int \<lfloor>(x - x_start g) / x_step g\<rfloor>) (\<lambda>i.
       Inr (max 0 (min i (nx g - 1))))"

definition get_cell_y :: "'a::floor_ceiling GridIndex2D \<Rightarrow> 'a \<Rightarrow> error + int" where
  "get_cell_y g y =
     and_then (static_cast_int \<lfloor>(y - y_start g) / y_step g\<rfloor>) (\<lambda>j.
       Inr (max 0 (min j (ny g - 1))))"

definition get_cell_id :: "'a GridIndex2D \<Rightarrow> int \<Rightarrow> int \<Rightarrow> int" where
  "get_cell_id g i j = j * nx g + i"

definition in_grid :: "'a GridIndex2D \<Rightarrow> int \<Rightarrow> bool" where
  \<comment> \<open>the positions at which \<^verbatim>\<open>grid_[cell_id]\<close> is defined\<close>
  "in_grid g cell_id = (0 \<le> cell_id \<and> cell_id < int (length (grid g)))"

subsection \<open>Insertion\<close>

definition insert_point ::
  "'a::floor_ceiling GridIndex2D \<Rightarrow> 'a \<Rightarrow> 'a \<Rightarrow> index \<Rightarrow> error + 'a GridIndex2D" where
  "insert_point g x y idx =
     and_then (get_cell_x g x) (\<lambda>i.
     and_then (get_cell_y g y) (\<lambda>j.
       let cell_id = get_cell_id g i j in
       if in_grid g cell_id
       then Inr (g\<lparr>grid := (grid g)[nat cell_id := grid g ! nat cell_id @ [idx]]\<rparr>)
       else Inl OutOfRange))"

text \<open>A caller inserting a sequence of points, one call after the other.\<close>

fun insert_all ::
  "'a::floor_ceiling GridIndex2D \<Rightarrow> ('a \<times> 'a \<times> index) list \<Rightarrow> error + 'a GridIndex2D" where
  "insert_all g [] = Inr g"
| "insert_all g ((x, y, idx) # ps) =
     (case insert_point g x y idx of Inl e \<Rightarrow> Inl e | Inr g' \<Rightarrow> insert_all g' ps)"

subsection \<open>The cell range of a query\<close>

definition on_boundary :: "'a::floor_ceiling \<Rightarrow> bool" where
  \<comment> \<open>\<^verbatim>\<open>v_normalized == std::floor(v_normalized)\<close>\<close>
  "on_boundary v_normalized = (v_normalized = of_int \<lfloor>v_normalized\<rfloor>)"

definition get_cell_range ::
  "'a::floor_ceiling GridIndex2D \<Rightarrow> 'a \<Rightarrow> 'a \<Rightarrow> 'a \<Rightarrow> 'a \<Rightarrow> bool \<Rightarrow> bool
     \<Rightarrow> error + (int \<times> int \<times> int \<times> int)" where
  \<comment> \<open>the result is \<open>(i_min, i_max, j_min, j_max)\<close>\<close>
  "get_cell_range g x1 x2 y1 y2 include_min include_max =
     (let (x1, x2) = (if x1 > x2 then (x2, x1) else (x1, x2));
          (y1, y2) = (if y1 > y2 then (y2, y1) else (y1, y2))
      in
        and_then (static_cast_int \<lfloor>(x1 - x_start g) / x_step g\<rfloor>) (\<lambda>i_min.
        and_then (static_cast_int \<lfloor>(x2 - x_start g) / x_step g\<rfloor>) (\<lambda>i_max.
        and_then (static_cast_int \<lfloor>(y1 - y_start g) / y_step g\<rfloor>) (\<lambda>j_min.
        and_then (static_cast_int \<lfloor>(y2 - y_start g) / y_step g\<rfloor>) (\<lambda>j_max.
        and_then (if \<not> include_min \<and> on_boundary ((x1 - x_start g) / x_step g)
                  then int_inc i_min else Inr i_min) (\<lambda>i_min.
        and_then (if \<not> include_min \<and> on_boundary ((y1 - y_start g) / y_step g)
                  then int_inc j_min else Inr j_min) (\<lambda>j_min.
        and_then (if \<not> include_max \<and> on_boundary ((x2 - x_start g) / x_step g)
                  then int_dec i_max else Inr i_max) (\<lambda>i_max.
        and_then (if \<not> include_max \<and> on_boundary ((y2 - y_start g) / y_step g)
                  then int_dec j_max else Inr j_max) (\<lambda>j_max.
          Inr (max 0 (min i_min (nx g - 1)), max 0 (min i_max (nx g - 1)),
               max 0 (min j_min (ny g - 1)), max 0 (min j_max (ny g - 1))))))))))))"

subsection \<open>Queries\<close>

text \<open>
  The loop \<^verbatim>\<open>for (int i = i_min; i <= i_max; ++i)\<close> of \<^verbatim>\<open>query_box\<close> and
  \<^verbatim>\<open>query_box_no_alloc\<close>, for a fixed row \<open>j\<close>: each cell is appended to \<open>result\<close>.
\<close>

function collect_row ::
  "'a GridIndex2D \<Rightarrow> int \<Rightarrow> int \<Rightarrow> int \<Rightarrow> index list \<Rightarrow> error + index list" where
  "collect_row g j i i_max result =
     (if i \<le> i_max then
        (let cell_id = get_cell_id g i j in
         if in_grid g cell_id
         then collect_row g j (i + 1) i_max (result @ grid g ! nat cell_id)
         else Inl OutOfRange)
      else Inr result)"
  by pat_completeness auto
termination
  by (relation "measure (\<lambda>(g, j, i, i_max, result). nat (i_max + 1 - i))") auto

text \<open>The loop \<^verbatim>\<open>for (int j = j_min; j <= j_max; ++j)\<close> around it.\<close>

function collect_cells ::
  "'a GridIndex2D \<Rightarrow> int \<Rightarrow> int \<Rightarrow> int \<Rightarrow> int \<Rightarrow> index list \<Rightarrow> error + index list" where
  "collect_cells g i_min i_max j j_max result =
     (if j \<le> j_max then
        (case collect_row g j i_min i_max result of
           Inl e \<Rightarrow> Inl e
         | Inr result' \<Rightarrow> collect_cells g i_min i_max (j + 1) j_max result')
      else Inr result)"
  by pat_completeness auto
termination
  by (relation "measure (\<lambda>(g, i_min, i_max, j, j_max, result). nat (j_max + 1 - j))") auto

definition query_box ::
  "'a::floor_ceiling GridIndex2D \<Rightarrow> 'a \<Rightarrow> 'a \<Rightarrow> 'a \<Rightarrow> 'a \<Rightarrow> bool \<Rightarrow> bool
     \<Rightarrow> error + index list" where
  "query_box g x1 x2 y1 y2 include_min include_max =
     and_then (get_cell_range g x1 x2 y1 y2 include_min include_max)
       (\<lambda>(i_min, i_max, j_min, j_max). collect_cells g i_min i_max j_min j_max [])"

definition query_box_no_alloc ::
  "'a::floor_ceiling GridIndex2D \<Rightarrow> 'a \<Rightarrow> 'a \<Rightarrow> 'a \<Rightarrow> 'a \<Rightarrow> index list \<Rightarrow> bool \<Rightarrow> bool \<Rightarrow> bool
     \<Rightarrow> error + index list" where
  \<comment> \<open>the value is the caller's vector \<open>result\<close> after the call\<close>
  "query_box_no_alloc g x1 x2 y1 y2 result append_results include_min include_max =
     (let result = (if \<not> append_results then [] else result) in
      and_then (get_cell_range g x1 x2 y1 y2 include_min include_max)
        (\<lambda>(i_min, i_max, j_min, j_max). collect_cells g i_min i_max j_min j_max result))"

text \<open>
  The loops of \<^verbatim>\<open>query_box_callback\<close>. The callback is any function on a state \<open>'s\<close> of
  the caller; \<^verbatim>\<open>for (size_t idx : cell) callback(idx)\<close> is a \<open>fold\<close> over the cell.
\<close>

function visit_row ::
  "'a GridIndex2D \<Rightarrow> (index \<Rightarrow> 's \<Rightarrow> 's) \<Rightarrow> int \<Rightarrow> int \<Rightarrow> int \<Rightarrow> 's \<Rightarrow> error + 's" where
  "visit_row g callback j i i_max s =
     (if i \<le> i_max then
        (let cell_id = get_cell_id g i j in
         if in_grid g cell_id
         then visit_row g callback j (i + 1) i_max (fold callback (grid g ! nat cell_id) s)
         else Inl OutOfRange)
      else Inr s)"
  by pat_completeness auto
termination
  by (relation "measure (\<lambda>(g, callback, j, i, i_max, s). nat (i_max + 1 - i))") auto

function visit_cells ::
  "'a GridIndex2D \<Rightarrow> (index \<Rightarrow> 's \<Rightarrow> 's) \<Rightarrow> int \<Rightarrow> int \<Rightarrow> int \<Rightarrow> int \<Rightarrow> 's \<Rightarrow> error + 's" where
  "visit_cells g callback i_min i_max j j_max s =
     (if j \<le> j_max then
        (case visit_row g callback j i_min i_max s of
           Inl e \<Rightarrow> Inl e
         | Inr s' \<Rightarrow> visit_cells g callback i_min i_max (j + 1) j_max s')
      else Inr s)"
  by pat_completeness auto
termination
  by (relation "measure (\<lambda>(g, callback, i_min, i_max, j, j_max, s). nat (j_max + 1 - j))") auto

definition query_box_callback ::
  "'a::floor_ceiling GridIndex2D \<Rightarrow> 'a \<Rightarrow> 'a \<Rightarrow> 'a \<Rightarrow> 'a \<Rightarrow> (index \<Rightarrow> 's \<Rightarrow> 's) \<Rightarrow> 's
     \<Rightarrow> bool \<Rightarrow> bool \<Rightarrow> error + 's" where
  "query_box_callback g x1 x2 y1 y2 callback s include_min include_max =
     and_then (get_cell_range g x1 x2 y1 y2 include_min include_max)
       (\<lambda>(i_min, i_max, j_min, j_max). visit_cells g callback i_min i_max j_min j_max s)"

definition push_back :: "index \<Rightarrow> index list \<Rightarrow> index list" where
  \<comment> \<open>the callback \<^verbatim>\<open>[&](size_t idx) { collected.push_back(idx); }\<close> of the tests\<close>
  "push_back idx collected = collected @ [idx]"

subsection \<open>Utilities\<close>

definition clear :: "'a GridIndex2D \<Rightarrow> 'a GridIndex2D" where
  "clear g = g\<lparr>grid := map (\<lambda>cell. []) (grid g)\<rparr>"

definition get_num_cells :: "'a GridIndex2D \<Rightarrow> nat" where
  "get_num_cells g = length (grid g)"

definition get_num_points :: "'a GridIndex2D \<Rightarrow> nat" where
  "get_num_points g = fold (\<lambda>cell count. count + length cell) (grid g) 0"

definition get_dimensions :: "'a GridIndex2D \<Rightarrow> int \<times> int" where
  "get_dimensions g = (nx g, ny g)"

definition get_bounds :: "'a GridIndex2D \<Rightarrow> 'a \<times> 'a \<times> 'a \<times> 'a" where
  "get_bounds g = (x_start g, x_end g, y_start g, y_end g)"

subsection \<open>The state of a constructed grid\<close>

definition grid_inv :: "'a::floor_ceiling GridIndex2D \<Rightarrow> bool" where
  "grid_inv g =
     (0 < x_step g \<and> 0 < y_step g \<and> 1 \<le> nx g \<and> 1 \<le> ny g \<and> nx g * ny g \<le> INT_MAX
      \<and> int (length (grid g)) = nx g * ny g)"

definition fits_int :: "int \<Rightarrow> bool" where
  \<comment> \<open>a raw cell index that \<^verbatim>\<open>int\<close> holds, with room for one step up or down\<close>
  "fits_int z = (INT_MIN < z \<and> z < INT_MAX)"

definition raw_x :: "'a::floor_ceiling GridIndex2D \<Rightarrow> 'a \<Rightarrow> int" where
  "raw_x g x = \<lfloor>(x - x_start g) / x_step g\<rfloor>"

definition raw_y :: "'a::floor_ceiling GridIndex2D \<Rightarrow> 'a \<Rightarrow> int" where
  "raw_y g y = \<lfloor>(y - y_start g) / y_step g\<rfloor>"

definition clamp :: "int \<Rightarrow> int \<Rightarrow> int" where
  "clamp n i = max 0 (min i (n - 1))"

subsection \<open>What the loops compute\<close>

text \<open>
  The cells of a row and of a box, listed in the order of the loops, and whether every one of
  them lies inside the vector. The loops are proved equal to these below.
\<close>

definition row_cells :: "'a GridIndex2D \<Rightarrow> int \<Rightarrow> int \<Rightarrow> int \<Rightarrow> index list" where
  "row_cells g j i i_max = concat (map (\<lambda>k. grid g ! nat (get_cell_id g k j)) [i..i_max])"

definition row_ok :: "'a GridIndex2D \<Rightarrow> int \<Rightarrow> int \<Rightarrow> int \<Rightarrow> bool" where
  "row_ok g j i i_max = list_all (\<lambda>k. in_grid g (get_cell_id g k j)) [i..i_max]"

definition box_cells :: "'a GridIndex2D \<Rightarrow> int \<Rightarrow> int \<Rightarrow> int \<Rightarrow> int \<Rightarrow> index list" where
  "box_cells g i_min i_max j j_max = concat (map (\<lambda>l. row_cells g l i_min i_max) [j..j_max])"

definition box_ok :: "'a GridIndex2D \<Rightarrow> int \<Rightarrow> int \<Rightarrow> int \<Rightarrow> int \<Rightarrow> bool" where
  "box_ok g i_min i_max j j_max = list_all (\<lambda>l. row_ok g l i_min i_max) [j..j_max]"

text \<open>
  The grid of the edge-flag example, bounds \<open>[0,10)\<close> and step 1: as constructed, and
  after its two insertions.
\<close>

definition grid10 :: "rat GridIndex2D" where
  "grid10 = \<lparr>x_start = 0, x_end = 10, x_step = 1, y_start = 0, y_end = 10, y_step = 1,
             nx = 10, ny = 10, grid = replicate 100 []\<rparr>"


text \<open>
  The doubles that C++ reads from \<^verbatim>\<open>1e-200\<close>, \<^verbatim>\<open>1e200\<close>, \<^verbatim>\<open>0.9\<close> and \<^verbatim>\<open>0.3\<close>
  (\<^verbatim>\<open>0x1.87e92154ef7acp-665\<close>, \<^verbatim>\<open>0x1.4e718d7d7625ap+664\<close>, \<^verbatim>\<open>0x1.ccccccccccccdp-1\<close>,
  \<^verbatim>\<open>0x1.3333333333333p-2\<close>), and the grid without cells.
\<close>

definition double_1e_minus_200 :: rat where
  "double_1e_minus_200 = 6894565328877484 * pow2 (- 717)"

definition double_1e200 :: rat where
  "double_1e200 = 5883593420661338 * pow2 612"



definition grid_no_cells :: "rat GridIndex2D" where
  "grid_no_cells = \<lparr>x_start = 0, x_end = double_1e_minus_200, x_step = double_1e200,
     y_start = 0, y_end = 1, y_step = 1, nx = 0, ny = 1, grid = []\<rparr>"

section \<open>Evaluation\<close>

declare collect_row.simps [simp del] collect_cells.simps [simp del]
  visit_row.simps [simp del] visit_cells.simps [simp del]

lemmas int_simps =
  and_then_def static_cast_int_def int_mul_def int_inc_def int_dec_def INT_MAX_def INT_MIN_def

lemma construct_grid10: "GridIndex2D_new (0::rat) 10 1 0 10 1 = Inr grid10"
  by (simp add: GridIndex2D_new_def grid10_def int_simps)

section \<open>The loops\<close>

lemma row_cells_step:
  "i \<le> i_max \<Longrightarrow> row_cells g j i i_max = grid g ! nat (get_cell_id g i j) @ row_cells g j (i + 1) i_max"
  by (simp add: row_cells_def upto_rec1)

lemma row_ok_step:
  "i \<le> i_max \<Longrightarrow> row_ok g j i i_max = (in_grid g (get_cell_id g i j) \<and> row_ok g j (i + 1) i_max)"
  by (simp add: row_ok_def upto_rec1)

lemma row_empty: "\<not> i \<le> i_max \<Longrightarrow> row_cells g j i i_max = [] \<and> row_ok g j i i_max"
  by (simp add: row_cells_def row_ok_def)

lemma collect_row_eq:
  "collect_row g j i i_max result =
     (if row_ok g j i i_max then Inr (result @ row_cells g j i i_max) else Inl OutOfRange)"
proof (induction g j i i_max result rule: collect_row.induct)
  case (1 g j i i_max result)
  show ?case
  proof (cases "i \<le> i_max")
    case False
    then show ?thesis by (subst collect_row.simps) (simp add: row_empty)
  next
    case True
    show ?thesis
    proof (cases "in_grid g (get_cell_id g i j)")
      case False
      with True show ?thesis by (subst collect_row.simps) (simp add: row_ok_step)
    next
      case ok: True
      have "collect_row g j i i_max result =
              collect_row g j (i + 1) i_max (result @ grid g ! nat (get_cell_id g i j))"
        using True ok by (subst collect_row.simps) simp
      also have "\<dots> = (if row_ok g j (i + 1) i_max
                        then Inr ((result @ grid g ! nat (get_cell_id g i j)) @ row_cells g j (i + 1) i_max)
                        else Inl OutOfRange)"
        using "1.IH" [OF True refl ok] .
      finally show ?thesis
        using True ok by (simp add: row_ok_step row_cells_step)
    qed
  qed
qed

lemma visit_row_eq:
  "visit_row g callback j i i_max s =
     (if row_ok g j i i_max then Inr (fold callback (row_cells g j i i_max) s) else Inl OutOfRange)"
proof (induction g callback j i i_max s rule: visit_row.induct)
  case (1 g callback j i i_max s)
  show ?case
  proof (cases "i \<le> i_max")
    case False
    then show ?thesis by (subst visit_row.simps) (simp add: row_empty)
  next
    case True
    show ?thesis
    proof (cases "in_grid g (get_cell_id g i j)")
      case False
      with True show ?thesis by (subst visit_row.simps) (simp add: row_ok_step)
    next
      case ok: True
      have "visit_row g callback j i i_max s =
              visit_row g callback j (i + 1) i_max (fold callback (grid g ! nat (get_cell_id g i j)) s)"
        using True ok by (subst visit_row.simps) simp
      also have "\<dots> = (if row_ok g j (i + 1) i_max
                        then Inr (fold callback (row_cells g j (i + 1) i_max)
                                    (fold callback (grid g ! nat (get_cell_id g i j)) s))
                        else Inl OutOfRange)"
        using "1.IH" [OF True refl ok] .
      finally show ?thesis
        using True ok by (simp add: row_ok_step row_cells_step)
    qed
  qed
qed

lemma box_cells_step:
  "j \<le> j_max \<Longrightarrow> box_cells g i_min i_max j j_max = row_cells g j i_min i_max @ box_cells g i_min i_max (j + 1) j_max"
  by (simp add: box_cells_def upto_rec1)

lemma box_ok_step:
  "j \<le> j_max \<Longrightarrow> box_ok g i_min i_max j j_max = (row_ok g j i_min i_max \<and> box_ok g i_min i_max (j + 1) j_max)"
  by (simp add: box_ok_def upto_rec1)

lemma box_empty: "\<not> j \<le> j_max \<Longrightarrow> box_cells g i_min i_max j j_max = [] \<and> box_ok g i_min i_max j j_max"
  by (simp add: box_cells_def box_ok_def)

lemma collect_cells_eq:
  "collect_cells g i_min i_max j j_max result =
     (if box_ok g i_min i_max j j_max then Inr (result @ box_cells g i_min i_max j j_max)
      else Inl OutOfRange)"
proof (induction g i_min i_max j j_max result rule: collect_cells.induct)
  case (1 g i_min i_max j j_max result)
  show ?case
  proof (cases "j \<le> j_max")
    case False
    then show ?thesis by (subst collect_cells.simps) (simp add: box_empty)
  next
    case True
    show ?thesis
    proof (cases "row_ok g j i_min i_max")
      case False
      with True show ?thesis by (subst collect_cells.simps) (simp add: box_ok_step collect_row_eq)
    next
      case ok: True
      then have row: "collect_row g j i_min i_max result = Inr (result @ row_cells g j i_min i_max)"
        by (simp add: collect_row_eq)
      have "collect_cells g i_min i_max j j_max result =
              collect_cells g i_min i_max (j + 1) j_max (result @ row_cells g j i_min i_max)"
        using True row by (subst collect_cells.simps) simp
      also have "\<dots> = (if box_ok g i_min i_max (j + 1) j_max
                        then Inr ((result @ row_cells g j i_min i_max) @ box_cells g i_min i_max (j + 1) j_max)
                        else Inl OutOfRange)"
        using "1.IH" [OF True row] .
      finally show ?thesis
        using True ok by (simp add: box_ok_step box_cells_step)
    qed
  qed
qed

lemma visit_cells_eq:
  "visit_cells g callback i_min i_max j j_max s =
     (if box_ok g i_min i_max j j_max then Inr (fold callback (box_cells g i_min i_max j j_max) s)
      else Inl OutOfRange)"
proof (induction g callback i_min i_max j j_max s rule: visit_cells.induct)
  case (1 g callback i_min i_max j j_max s)
  show ?case
  proof (cases "j \<le> j_max")
    case False
    then show ?thesis by (subst visit_cells.simps) (simp add: box_empty)
  next
    case True
    show ?thesis
    proof (cases "row_ok g j i_min i_max")
      case False
      with True show ?thesis by (subst visit_cells.simps) (simp add: box_ok_step visit_row_eq)
    next
      case ok: True
      then have row: "visit_row g callback j i_min i_max s = Inr (fold callback (row_cells g j i_min i_max) s)"
        by (simp add: visit_row_eq)
      have "visit_cells g callback i_min i_max j j_max s =
              visit_cells g callback i_min i_max (j + 1) j_max (fold callback (row_cells g j i_min i_max) s)"
        using True row by (subst visit_cells.simps) simp
      also have "\<dots> = (if box_ok g i_min i_max (j + 1) j_max
                        then Inr (fold callback (box_cells g i_min i_max (j + 1) j_max)
                                   (fold callback (row_cells g j i_min i_max) s))
                        else Inl OutOfRange)"
        using "1.IH" [OF True row] .
      finally show ?thesis
        using True ok by (simp add: box_ok_step box_cells_step)
    qed
  qed
qed

lemma fold_push_back: "fold push_back xs acc = acc @ xs"
  by (induction xs arbitrary: acc) (simp_all add: push_back_def)

section \<open>Outcomes and conversions\<close>

lemma and_then_Inr [simp]: "and_then (Inr v) f = f v"
  by (simp add: and_then_def)

lemma and_then_Inl [simp]: "and_then (Inl e) f = Inl e"
  by (simp add: and_then_def)

lemma and_then_InrE:
  assumes "and_then r f = Inr v"
  obtains u where "r = Inr u" and "f u = Inr v"
  using assms by (cases r) simp_all

lemma and_then_not_error:
  "r \<noteq> Inl e \<Longrightarrow> (\<And>u. f u \<noteq> Inl e) \<Longrightarrow> and_then r f \<noteq> Inl e"
  by (cases r) simp_all


lemma static_cast_int_cases: "static_cast_int z = Inr z \<or> static_cast_int z = Inl IntOverflow"
  by (simp add: static_cast_int_def)

lemma static_cast_int_InrD: "static_cast_int z = Inr v \<Longrightarrow> v = z \<and> INT_MIN \<le> z \<and> z \<le> INT_MAX"
  by (simp add: static_cast_int_def split: if_splits)

section \<open>The cell range\<close>

lemma get_cell_range_min_max:
  "get_cell_range g x1 x2 y1 y2 a b =
   get_cell_range g (min x1 x2) (max x1 x2) (min y1 y2) (max y1 y2) a b"
proof -
  have x: "(if x1 > x2 then (x2, x1) else (x1, x2)) = (min x1 x2, max x1 x2)"
    by (simp add: min_def max_def)
  have y: "(if y1 > y2 then (y2, y1) else (y1, y2)) = (min y1 y2, max y1 y2)"
    by (simp add: min_def max_def)
  have x': "(if min x1 x2 > max x1 x2 then (max x1 x2, min x1 x2) else (min x1 x2, max x1 x2))
              = (min x1 x2, max x1 x2)"
    by (simp add: min_def max_def)
  have y': "(if min y1 y2 > max y1 y2 then (max y1 y2, min y1 y2) else (min y1 y2, max y1 y2))
              = (min y1 y2, max y1 y2)"
    by (simp add: min_def max_def)
  show ?thesis
    unfolding get_cell_range_def x y x' y' ..
qed

lemma get_cell_range_swap_x: "get_cell_range g x2 x1 y1 y2 a b = get_cell_range g x1 x2 y1 y2 a b"
  by (subst get_cell_range_min_max, subst (2) get_cell_range_min_max) (simp add: min.commute max.commute)

lemma get_cell_range_swap_y: "get_cell_range g x1 x2 y2 y1 a b = get_cell_range g x1 x2 y1 y2 a b"
  by (subst get_cell_range_min_max, subst (2) get_cell_range_min_max) (simp add: min.commute max.commute)

lemma get_cell_range_clamped:
  assumes "get_cell_range g x1 x2 y1 y2 a b = Inr (i_min, i_max, j_min, j_max)"
  shows "\<exists>p q r s. i_min = clamp (nx g) p \<and> i_max = clamp (nx g) q
           \<and> j_min = clamp (ny g) r \<and> j_max = clamp (ny g) s"
  using assms
  unfolding get_cell_range_def Let_def clamp_def
  by (simp split: prod.splits) (elim and_then_InrE, auto)

lemma clamp_bounds: "1 \<le> n \<Longrightarrow> 0 \<le> clamp n i \<and> clamp n i \<le> n - 1"
  by (simp add: clamp_def)

lemma get_cell_range_fits:
  assumes "x1 \<le> x2" "y1 \<le> y2"
    and "fits_int (raw_x g x1)" "fits_int (raw_x g x2)"
    and "fits_int (raw_y g y1)" "fits_int (raw_y g y2)"
  shows "get_cell_range g x1 x2 y1 y2 a b =
     Inr (clamp (nx g) (raw_x g x1 + (if \<not> a \<and> on_boundary ((x1 - x_start g) / x_step g) then 1 else 0)),
          clamp (nx g) (raw_x g x2 - (if \<not> b \<and> on_boundary ((x2 - x_start g) / x_step g) then 1 else 0)),
          clamp (ny g) (raw_y g y1 + (if \<not> a \<and> on_boundary ((y1 - y_start g) / y_step g) then 1 else 0)),
          clamp (ny g) (raw_y g y2 - (if \<not> b \<and> on_boundary ((y2 - y_start g) / y_step g) then 1 else 0)))"
  using assms
  by (simp add: get_cell_range_def fits_int_def raw_x_def raw_y_def clamp_def int_inc_def int_dec_def
      static_cast_int_def)

section \<open>The invariant of a grid\<close>

lemma ceiling_ge_1:
  fixes a b c :: "'a::floor_ceiling"
  assumes "a < b" "0 < c"
  shows "1 \<le> \<lceil>(b - a) / c\<rceil>"
proof -
  have "0 < (b - a) / c" using assms by simp
  then have "0 < \<lceil>(b - a) / c\<rceil>" by (simp add: ceiling_less_iff)
  then show ?thesis by simp
qed

lemma construct_Inr:
  assumes "GridIndex2D_new xs xe xst ys ye yst = Inr g"
  shows "g = \<lparr>x_start = xs, x_end = xe, x_step = xst, y_start = ys, y_end = ye, y_step = yst,
              nx = \<lceil>(xe - xs) / xst\<rceil>, ny = \<lceil>(ye - ys) / yst\<rceil>,
              grid = replicate (nat (\<lceil>(xe - xs) / xst\<rceil> * \<lceil>(ye - ys) / yst\<rceil>)) []\<rparr>"
    and "0 < xst" "0 < yst" "xs < xe" "ys < ye"
    and "\<lceil>(xe - xs) / xst\<rceil> * \<lceil>(ye - ys) / yst\<rceil> \<le> INT_MAX"
proof -
  from assms have ok: "0 < xst" "0 < yst" "xs < xe" "ys < ye"
    by (auto simp: GridIndex2D_new_def split: if_splits)
  with assms have
    "and_then (static_cast_int \<lceil>(xe - xs) / xst\<rceil>) (\<lambda>n_x.
     and_then (static_cast_int \<lceil>(ye - ys) / yst\<rceil>) (\<lambda>n_y.
     and_then (int_mul n_x n_y) (\<lambda>n.
       Inr \<lparr>x_start = xs, x_end = xe, x_step = xst,
            y_start = ys, y_end = ye, y_step = yst,
            nx = n_x, ny = n_y, grid = replicate (nat n) []\<rparr>))) = Inr g"
    by (simp add: GridIndex2D_new_def)
  then obtain n_x n_y n where
    "static_cast_int \<lceil>(xe - xs) / xst\<rceil> = Inr n_x"
    "static_cast_int \<lceil>(ye - ys) / yst\<rceil> = Inr n_y"
    "int_mul n_x n_y = Inr n"
    and g: "g = \<lparr>x_start = xs, x_end = xe, x_step = xst,
            y_start = ys, y_end = ye, y_step = yst,
            nx = n_x, ny = n_y, grid = replicate (nat n) []\<rparr>"
    by (elim and_then_InrE) simp
  then have "n_x = \<lceil>(xe - xs) / xst\<rceil>" "n_y = \<lceil>(ye - ys) / yst\<rceil>"
    "n = n_x * n_y" "n_x * n_y \<le> INT_MAX"
    by (auto simp: int_mul_def dest: static_cast_int_InrD)
  with g show "g = \<lparr>x_start = xs, x_end = xe, x_step = xst, y_start = ys, y_end = ye, y_step = yst,
              nx = \<lceil>(xe - xs) / xst\<rceil>, ny = \<lceil>(ye - ys) / yst\<rceil>,
              grid = replicate (nat (\<lceil>(xe - xs) / xst\<rceil> * \<lceil>(ye - ys) / yst\<rceil>)) []\<rparr>"
    and "\<lceil>(xe - xs) / xst\<rceil> * \<lceil>(ye - ys) / yst\<rceil> \<le> INT_MAX"
    by simp_all
  show "0 < xst" "0 < yst" "xs < xe" "ys < ye" by fact+
qed

lemma construct_inv:
  assumes "GridIndex2D_new xs xe xst ys ye yst = Inr g"
  shows "grid_inv g"
proof -
  note c = construct_Inr [OF assms]
  have "1 \<le> \<lceil>(xe - xs) / xst\<rceil>" "1 \<le> \<lceil>(ye - ys) / yst\<rceil>"
    using c(2-5) by (simp_all add: ceiling_ge_1)
  moreover from this have "0 \<le> \<lceil>(xe - xs) / xst\<rceil> * \<lceil>(ye - ys) / yst\<rceil>"
    by simp
  ultimately show ?thesis
    using c(2,3,6) by (subst c(1)) (simp add: grid_inv_def)
qed


lemma cell_id_in_grid:
  assumes "grid_inv g" "0 \<le> i" "i \<le> nx g - 1" "0 \<le> j" "j \<le> ny g - 1"
  shows "in_grid g (get_cell_id g i j)"
proof -
  have "j * nx g \<le> (ny g - 1) * nx g"
    using assms by (intro mult_right_mono) (simp_all add: grid_inv_def)
  then have "j * nx g + i \<le> (ny g - 1) * nx g + (nx g - 1)"
    using assms(3) by linarith
  also have "\<dots> = nx g * ny g - 1" by (simp add: algebra_simps)
  finally have "j * nx g + i < nx g * ny g" by simp
  moreover have "0 \<le> j * nx g + i"
    using assms by (simp add: grid_inv_def)
  ultimately show ?thesis
    using assms(1) by (simp add: in_grid_def get_cell_id_def grid_inv_def)
qed

lemma box_ok_in_bounds:
  assumes "grid_inv g" "0 \<le> i_min" "i_max \<le> nx g - 1" "0 \<le> j_min" "j_max \<le> ny g - 1"
  shows "box_ok g i_min i_max j_min j_max"
  using assms by (auto simp: box_ok_def row_ok_def list_all_iff intro: cell_id_in_grid)

lemma box_ok_cell_range:
  assumes "grid_inv g"
    and "get_cell_range g x1 x2 y1 y2 a b = Inr (i_min, i_max, j_min, j_max)"
  shows "box_ok g i_min i_max j_min j_max"
proof -
  from get_cell_range_clamped [OF assms(2)] obtain p q r s where
    "i_min = clamp (nx g) p" "i_max = clamp (nx g) q"
    "j_min = clamp (ny g) r" "j_max = clamp (ny g) s"
    by blast
  moreover have "1 \<le> nx g" "1 \<le> ny g"
    using assms(1) by (simp_all add: grid_inv_def)
  ultimately show ?thesis
    using assms(1) clamp_bounds [of "nx g"] clamp_bounds [of "ny g"]
    by (intro box_ok_in_bounds) blast+
qed


section \<open>Insertion\<close>

lemma get_cell_x_Inr:
  "INT_MIN \<le> raw_x g x \<Longrightarrow> raw_x g x \<le> INT_MAX \<Longrightarrow> get_cell_x g x = Inr (clamp (nx g) (raw_x g x))"
  by (simp add: get_cell_x_def raw_x_def clamp_def static_cast_int_def)

lemma get_cell_y_Inr:
  "INT_MIN \<le> raw_y g y \<Longrightarrow> raw_y g y \<le> INT_MAX \<Longrightarrow> get_cell_y g y = Inr (clamp (ny g) (raw_y g y))"
  by (simp add: get_cell_y_def raw_y_def clamp_def static_cast_int_def)

lemma insert_point_Inr:
  assumes "grid_inv g"
    and "INT_MIN \<le> raw_x g x" "raw_x g x \<le> INT_MAX"
    and "INT_MIN \<le> raw_y g y" "raw_y g y \<le> INT_MAX"
  shows "in_grid g (get_cell_id g (clamp (nx g) (raw_x g x)) (clamp (ny g) (raw_y g y)))"
    and "insert_point g x y idx =
      Inr (g\<lparr>grid := (grid g)
        [nat (get_cell_id g (clamp (nx g) (raw_x g x)) (clamp (ny g) (raw_y g y))) :=
           grid g ! nat (get_cell_id g (clamp (nx g) (raw_x g x)) (clamp (ny g) (raw_y g y))) @ [idx]]\<rparr>)"
proof -
  have "1 \<le> nx g" "1 \<le> ny g"
    using assms(1) by (simp_all add: grid_inv_def)
  then show ok: "in_grid g (get_cell_id g (clamp (nx g) (raw_x g x)) (clamp (ny g) (raw_y g y)))"
    using assms(1) clamp_bounds [of "nx g"] clamp_bounds [of "ny g"]
    by (intro cell_id_in_grid) blast+
  then show "insert_point g x y idx =
      Inr (g\<lparr>grid := (grid g)
        [nat (get_cell_id g (clamp (nx g) (raw_x g x)) (clamp (ny g) (raw_y g y))) :=
           grid g ! nat (get_cell_id g (clamp (nx g) (raw_x g x)) (clamp (ny g) (raw_y g y))) @ [idx]]\<rparr>)"
    using assms(2-5) by (simp add: insert_point_def get_cell_x_Inr get_cell_y_Inr Let_def)
qed

lemma insert_point_shape:
  assumes "insert_point g x y idx = Inr g'"
  shows "\<exists>c. c < length (grid g) \<and> g' = g\<lparr>grid := (grid g)[c := grid g ! c @ [idx]]\<rparr>"
proof -
  from assms obtain i j where
    "(let cell_id = get_cell_id g i j in
       if in_grid g cell_id
       then Inr (g\<lparr>grid := (grid g)[nat cell_id := grid g ! nat cell_id @ [idx]]\<rparr>)
       else Inl OutOfRange) = Inr g'"
    unfolding insert_point_def by (elim and_then_InrE)
  then have "in_grid g (get_cell_id g i j)"
    and "g' = g\<lparr>grid := (grid g)[nat (get_cell_id g i j) := grid g ! nat (get_cell_id g i j) @ [idx]]\<rparr>"
    by (simp_all add: Let_def split: if_splits)
  moreover from this have "nat (get_cell_id g i j) < length (grid g)"
    by (simp add: in_grid_def nat_less_iff)
  ultimately show ?thesis by blast
qed

lemma fold_count: "fold (\<lambda>cell count. count + length cell) xs n = n + sum_list (map length xs)"
  by (induction xs arbitrary: n) simp_all

lemma get_num_points_sum: "get_num_points g = sum_list (map length (grid g))"
  by (simp add: get_num_points_def fold_count)

lemma sum_length_update:
  "c < length xs \<Longrightarrow> sum_list (map length (xs[c := xs ! c @ [v]])) = sum_list (map length xs) + 1"
proof (induction xs arbitrary: c)
  case Nil
  then show ?case by simp
next
  case (Cons a xs)
  then show ?case by (cases c) simp_all
qed

lemma insert_point_facts:
  assumes "insert_point g x y idx = Inr g'"
  shows "get_num_points g' = get_num_points g + 1"
    and "grid_inv g \<Longrightarrow> grid_inv g'"
    and "get_dimensions g' = get_dimensions g" and "get_bounds g' = get_bounds g"
    and "x_start g' = x_start g" and "x_step g' = x_step g"
    and "y_start g' = y_start g" and "y_step g' = y_step g"
    and "nx g' = nx g" and "ny g' = ny g"
  using insert_point_shape [OF assms]
  by (auto simp: get_num_points_sum sum_length_update grid_inv_def get_dimensions_def get_bounds_def)

lemma insert_all_conj:
  assumes "insert_all g ps = Inr g'"
  shows "get_num_points g' = get_num_points g + length ps
    \<and> (grid_inv g \<longrightarrow> grid_inv g')
    \<and> get_dimensions g' = get_dimensions g \<and> get_bounds g' = get_bounds g
    \<and> x_start g' = x_start g \<and> x_step g' = x_step g
    \<and> y_start g' = y_start g \<and> y_step g' = y_step g
    \<and> nx g' = nx g \<and> ny g' = ny g"
  using assms
proof (induction ps arbitrary: g)
  case Nil
  then show ?case by simp
next
  case (Cons p ps)
  obtain x y idx where p: "p = (x, y, idx)" by (cases p)
  from Cons.prems obtain h where
    h: "insert_point g x y idx = Inr h" "insert_all h ps = Inr g'"
    by (auto simp: p split: sum.splits)
  show ?case
    using Cons.IH [OF h(2)] insert_point_facts [OF h(1)] by simp
qed

lemma insert_all_facts:
  assumes "insert_all g ps = Inr g'"
  shows "get_num_points g' = get_num_points g + length ps"
    and "grid_inv g \<Longrightarrow> grid_inv g'"
    and "get_dimensions g' = get_dimensions g" and "get_bounds g' = get_bounds g"
    and "x_start g' = x_start g" and "x_step g' = x_step g"
    and "y_start g' = y_start g" and "y_step g' = y_step g"
    and "nx g' = nx g" and "ny g' = ny g"
  using insert_all_conj [OF assms] by simp_all

section \<open>Queries\<close>

lemma query_box_eq:
  "query_box g x1 x2 y1 y2 a b =
     and_then (get_cell_range g x1 x2 y1 y2 a b) (\<lambda>(i_min, i_max, j_min, j_max).
       if box_ok g i_min i_max j_min j_max then Inr (box_cells g i_min i_max j_min j_max)
       else Inl OutOfRange)"
  by (cases "get_cell_range g x1 x2 y1 y2 a b") (auto simp: query_box_def collect_cells_eq)

lemma query_box_no_alloc_eq:
  "query_box_no_alloc g x1 x2 y1 y2 result append_results a b =
     and_then (get_cell_range g x1 x2 y1 y2 a b) (\<lambda>(i_min, i_max, j_min, j_max).
       if box_ok g i_min i_max j_min j_max
       then Inr ((if append_results then result else []) @ box_cells g i_min i_max j_min j_max)
       else Inl OutOfRange)"
  by (cases "get_cell_range g x1 x2 y1 y2 a b") (auto simp: query_box_no_alloc_def collect_cells_eq)

lemma query_box_callback_eq:
  "query_box_callback g x1 x2 y1 y2 callback s a b =
     and_then (get_cell_range g x1 x2 y1 y2 a b) (\<lambda>(i_min, i_max, j_min, j_max).
       if box_ok g i_min i_max j_min j_max
       then Inr (fold callback (box_cells g i_min i_max j_min j_max) s)
       else Inl OutOfRange)"
  by (cases "get_cell_range g x1 x2 y1 y2 a b") (auto simp: query_box_callback_def visit_cells_eq)

lemma query_box_no_alloc_query_box:
  "query_box_no_alloc g x1 x2 y1 y2 result False a b = query_box g x1 x2 y1 y2 a b"
  by (cases "get_cell_range g x1 x2 y1 y2 a b") (auto simp: query_box_no_alloc_eq query_box_eq)

lemma query_box_no_alloc_append:
  "query_box_no_alloc g x1 x2 y1 y2 result True a b =
     and_then (query_box g x1 x2 y1 y2 a b) (\<lambda>r. Inr (result @ r))"
  by (cases "get_cell_range g x1 x2 y1 y2 a b")
     (auto simp: query_box_no_alloc_eq query_box_eq)

lemma query_box_callback_fold:
  "query_box_callback g x1 x2 y1 y2 callback s a b =
     and_then (query_box g x1 x2 y1 y2 a b) (\<lambda>r. Inr (fold callback r s))"
  by (cases "get_cell_range g x1 x2 y1 y2 a b")
     (auto simp: query_box_callback_eq query_box_eq)

lemma query_box_callback_push_back:
  "query_box_callback g x1 x2 y1 y2 push_back [] a b = query_box g x1 x2 y1 y2 a b"
  by (cases "query_box g x1 x2 y1 y2 a b") (simp_all add: query_box_callback_fold fold_push_back)

text \<open>
  C3. For every grid state, every query rectangle and every pair of flags, \<open>query_box\<close>,
  \<open>query_box_no_alloc\<close> with \<open>append_results = false\<close> (whatever the destination held
  before) and \<open>query_box_callback\<close> deliver the same sequence of identifiers: the callback
  that appends each identifier it is given to an empty list ends with the list that
  \<open>query_box\<close> returns, and any callback sees exactly the fold over that list. With
  \<open>append_results = true\<close> the same list follows the destination's old contents.
\<close>

theorem C3_query_variants_agree:
  "query_box_no_alloc g x1 x2 y1 y2 result False include_min include_max
     = query_box g x1 x2 y1 y2 include_min include_max
   \<and> query_box_callback g x1 x2 y1 y2 push_back [] include_min include_max
     = query_box g x1 x2 y1 y2 include_min include_max
   \<and> query_box_callback g x1 x2 y1 y2 callback s include_min include_max
     = and_then (query_box g x1 x2 y1 y2 include_min include_max) (\<lambda>r. Inr (fold callback r s))
   \<and> query_box_no_alloc g x1 x2 y1 y2 result True include_min include_max
     = and_then (query_box g x1 x2 y1 y2 include_min include_max) (\<lambda>r. Inr (result @ r))"
  by (simp only: query_box_no_alloc_query_box query_box_callback_push_back
      query_box_callback_fold [symmetric] query_box_no_alloc_append [symmetric] simp_thms)

lemma query_box_swap:
  "query_box g x2 x1 y1 y2 a b = query_box g x1 x2 y1 y2 a b"
  "query_box g x1 x2 y2 y1 a b = query_box g x1 x2 y1 y2 a b"
  by (simp_all add: query_box_def get_cell_range_swap_x get_cell_range_swap_y)

lemma query_box_no_alloc_swap:
  "query_box_no_alloc g x2 x1 y1 y2 r ap a b = query_box_no_alloc g x1 x2 y1 y2 r ap a b"
  "query_box_no_alloc g x1 x2 y2 y1 r ap a b = query_box_no_alloc g x1 x2 y1 y2 r ap a b"
  by (simp_all add: query_box_no_alloc_def get_cell_range_swap_x get_cell_range_swap_y)

lemma query_box_callback_swap:
  "query_box_callback g x2 x1 y1 y2 cb s a b = query_box_callback g x1 x2 y1 y2 cb s a b"
  "query_box_callback g x1 x2 y2 y1 cb s a b = query_box_callback g x1 x2 y1 y2 cb s a b"
  by (simp_all add: query_box_callback_def get_cell_range_swap_x get_cell_range_swap_y)

text \<open>
  C8. For every grid state, every pair of flags and every query rectangle, each query
  variant gives the same result when the two x coordinates are exchanged, when the two y
  coordinates are exchanged, and when both pairs are.
\<close>

theorem C8_swapped_corners:
  "query_box g x2 x1 y1 y2 include_min include_max
     = query_box g x1 x2 y1 y2 include_min include_max
   \<and> query_box g x1 x2 y2 y1 include_min include_max
     = query_box g x1 x2 y1 y2 include_min include_max
   \<and> query_box g x2 x1 y2 y1 include_min include_max
     = query_box g x1 x2 y1 y2 include_min include_max
   \<and> query_box_no_alloc g x2 x1 y1 y2 result append_results include_min include_max
     = query_box_no_alloc g x1 x2 y1 y2 result append_results include_min include_max
   \<and> query_box_no_alloc g x1 x2 y2 y1 result append_results include_min include_max
     = query_box_no_alloc g x1 x2 y1 y2 result append_results include_min include_max
   \<and> query_box_no_alloc g x2 x1 y2 y1 result append_results include_min include_max
     = query_box_no_alloc g x1 x2 y1 y2 result append_results include_min include_max
   \<and> query_box_callback g x2 x1 y1 y2 callback s include_min include_max
     = query_box_callback g x1 x2 y1 y2 callback s include_min include_max
   \<and> query_box_callback g x1 x2 y2 y1 callback s include_min include_max
     = query_box_callback g x1 x2 y1 y2 callback s include_min include_max
   \<and> query_box_callback g x2 x1 y2 y1 callback s include_min include_max
     = query_box_callback g x1 x2 y1 y2 callback s include_min include_max"
  by (simp only: query_box_swap query_box_no_alloc_swap query_box_callback_swap simp_thms)

text \<open>
  C2. The grid with bounds \<open>[0,10)\<close> and step 1 on both axes, after \<open>insert(5, 5, 0)\<close>
  and \<open>insert(6, 6, 1)\<close>: the query \<open>(5, 6, 5, 6)\<close> returns \<open>0, 1\<close> with both edges
  included, nothing with both excluded, \<open>0\<close> with only the lower edges included and \<open>1\<close>
  with only the upper edges included.
\<close>

theorem C2_edge_flags:
  "and_then (GridIndex2D_new (0::rat) 10 1 0 10 1) (\<lambda>g.
   and_then (insert_point g 5 5 0) (\<lambda>g.
   and_then (insert_point g 6 6 1) (\<lambda>g.
     Inr (query_box g 5 6 5 6 True True, query_box g 5 6 5 6 False False,
          query_box g 5 6 5 6 True False, query_box g 5 6 5 6 False True))))
   = Inr (Inr [0, 1], Inr [], Inr [0], Inr [1])"
  by code_simp

section \<open>Queries that are defined\<close>

lemma fits_int_min_max:
  fixes u v :: "'a::floor_ceiling"
  assumes "fits_int (f u)" "fits_int (f v)"
  shows "fits_int (f (min u v))" "fits_int (f (max u v))"
  using assms by (simp_all add: min_def max_def)

lemma get_cell_range_Inr:
  assumes "fits_int (raw_x g x1)" "fits_int (raw_x g x2)"
    and "fits_int (raw_y g y1)" "fits_int (raw_y g y2)"
  shows "get_cell_range g x1 x2 y1 y2 a b =
     Inr (clamp (nx g) (raw_x g (min x1 x2) +
            (if \<not> a \<and> on_boundary ((min x1 x2 - x_start g) / x_step g) then 1 else 0)),
          clamp (nx g) (raw_x g (max x1 x2) -
            (if \<not> b \<and> on_boundary ((max x1 x2 - x_start g) / x_step g) then 1 else 0)),
          clamp (ny g) (raw_y g (min y1 y2) +
            (if \<not> a \<and> on_boundary ((min y1 y2 - y_start g) / y_step g) then 1 else 0)),
          clamp (ny g) (raw_y g (max y1 y2) -
            (if \<not> b \<and> on_boundary ((max y1 y2 - y_start g) / y_step g) then 1 else 0)))"
  by (subst get_cell_range_min_max, rule get_cell_range_fits)
     (simp_all add: fits_int_min_max assms)

lemma query_box_Inr:
  assumes "grid_inv g"
    and "fits_int (raw_x g x1)" "fits_int (raw_x g x2)"
    and "fits_int (raw_y g y1)" "fits_int (raw_y g y2)"
  shows "\<exists>r. query_box g x1 x2 y1 y2 a b = Inr r"
proof -
  obtain i_min i_max j_min j_max where
    r: "get_cell_range g x1 x2 y1 y2 a b = Inr (i_min, i_max, j_min, j_max)"
    using get_cell_range_Inr [OF assms(2-5)] by blast
  then have "box_ok g i_min i_max j_min j_max"
    using assms(1) by (rule box_ok_cell_range [rotated])
  with r show ?thesis by (simp add: query_box_eq)
qed

lemma and_then_InlE:
  assumes "and_then r f = Inl e"
  obtains "r = Inl e" | u where "r = Inr u" and "f u = Inl e"
  using assms by (cases r) simp_all

lemma static_cast_int_Inl: "static_cast_int z = Inl e \<Longrightarrow> e = IntOverflow"
  by (simp add: static_cast_int_def split: if_splits)

lemma adjust_Inl:
  "(if c then int_inc i else Inr i) = Inl e \<Longrightarrow> e = IntOverflow"
  "(if c then int_dec i else Inr i) = Inl e \<Longrightarrow> e = IntOverflow"
  by (simp_all add: int_inc_def int_dec_def static_cast_int_def split: if_splits)

lemma get_cell_range_Inl:
  assumes "get_cell_range g x1 x2 y1 y2 a b = Inl e"
  shows "e = IntOverflow"
  using assms
  unfolding get_cell_range_def Let_def
  by (simp split: prod.splits)
     (elim and_then_InlE; (drule static_cast_int_Inl adjust_Inl)?; simp)

lemma query_box_not_OutOfRange:
  assumes "grid_inv g"
  shows "query_box g x1 x2 y1 y2 a b \<noteq> Inl OutOfRange"
proof (cases "get_cell_range g x1 x2 y1 y2 a b")
  case (Inl e)
  then have "e = IntOverflow"
    by (rule get_cell_range_Inl)
  with Inl show ?thesis by (simp add: query_box_eq)
next
  case (Inr r)
  obtain i_min i_max j_min j_max where "r = (i_min, i_max, j_min, j_max)"
    by (cases r) auto
  with Inr assms show ?thesis
    by (simp add: query_box_eq box_ok_cell_range)
qed

lemma query_variants_not_OutOfRange:
  assumes "grid_inv g"
  shows "query_box_no_alloc g x1 x2 y1 y2 result ap a b \<noteq> Inl OutOfRange"
    and "query_box_callback g x1 x2 y1 y2 callback s a b \<noteq> Inl OutOfRange"
proof -
  have q: "query_box g x1 x2 y1 y2 a b \<noteq> Inl OutOfRange"
    using assms by (rule query_box_not_OutOfRange)
  show "query_box_callback g x1 x2 y1 y2 callback s a b \<noteq> Inl OutOfRange"
    using q by (cases "query_box g x1 x2 y1 y2 a b") (simp_all add: query_box_callback_fold)
  show "query_box_no_alloc g x1 x2 y1 y2 result ap a b \<noteq> Inl OutOfRange"
    using q by (cases ap; cases "query_box g x1 x2 y1 y2 a b")
      (simp_all add: query_box_no_alloc_append query_box_no_alloc_query_box)
qed

section \<open>Bucket access\<close>

lemma cell_id_bounds:
  assumes "grid_inv g" "0 \<le> i" "i \<le> nx g - 1" "0 \<le> j" "j \<le> ny g - 1"
  shows "0 \<le> get_cell_id g i j" "get_cell_id g i j < nx g * ny g"
  using cell_id_in_grid [OF assms] assms(1)
  by (simp_all add: in_grid_def grid_inv_def)

lemma get_cell_range_bounds:
  assumes "grid_inv g"
    and "get_cell_range g x1 x2 y1 y2 a b = Inr (i_min, i_max, j_min, j_max)"
  shows "0 \<le> i_min" "i_min \<le> nx g - 1" "0 \<le> i_max" "i_max \<le> nx g - 1"
    and "0 \<le> j_min" "j_min \<le> ny g - 1" "0 \<le> j_max" "j_max \<le> ny g - 1"
proof -
  from get_cell_range_clamped [OF assms(2)] obtain p q r s where
    "i_min = clamp (nx g) p" "i_max = clamp (nx g) q"
    "j_min = clamp (ny g) r" "j_max = clamp (ny g) s"
    by blast
  moreover have "1 \<le> nx g" "1 \<le> ny g"
    using assms(1) by (simp_all add: grid_inv_def)
  ultimately show "0 \<le> i_min" "i_min \<le> nx g - 1" "0 \<le> i_max" "i_max \<le> nx g - 1"
    and "0 \<le> j_min" "j_min \<le> ny g - 1" "0 \<le> j_max" "j_max \<le> ny g - 1"
    using clamp_bounds [of "nx g"] clamp_bounds [of "ny g"] by blast+
qed

text \<open>
  In a grid with at least one cell on each axis (\<open>grid_inv\<close>: established by the
  constructor over exact coordinates, kept by \<open>insert\<close> and \<open>clear\<close>), for arbitrary query
  coordinates and flags: no query variant indexes the bucket vector out of range; whenever
  \<open>get_cell_range\<close> resolves a range, its four indices lie in \<open>[0, nx-1]\<close> and
  \<open>[0, ny-1]\<close>, and every cell \<open>(i, j)\<close> of that range has a flat index
  \<open>j * nx + i\<close> in \<open>[0, nx * ny)\<close>, inside the vector.
\<close>

lemma bucket_access_in_range:
  assumes "grid_inv g"
  shows "query_box g x1 x2 y1 y2 include_min include_max \<noteq> Inl OutOfRange
    \<and> query_box_no_alloc g x1 x2 y1 y2 result append_results include_min include_max
        \<noteq> Inl OutOfRange
    \<and> query_box_callback g x1 x2 y1 y2 callback s include_min include_max \<noteq> Inl OutOfRange
    \<and> (\<forall>i_min i_max j_min j_max.
          get_cell_range g x1 x2 y1 y2 include_min include_max = Inr (i_min, i_max, j_min, j_max)
          \<longrightarrow> 0 \<le> i_min \<and> i_min \<le> nx g - 1 \<and> 0 \<le> i_max \<and> i_max \<le> nx g - 1
            \<and> 0 \<le> j_min \<and> j_min \<le> ny g - 1 \<and> 0 \<le> j_max \<and> j_max \<le> ny g - 1
            \<and> (\<forall>i j. i_min \<le> i \<and> i \<le> i_max \<and> j_min \<le> j \<and> j \<le> j_max
                  \<longrightarrow> 0 \<le> get_cell_id g i j \<and> get_cell_id g i j < nx g * ny g
                    \<and> in_grid g (get_cell_id g i j)))"
proof (intro conjI allI impI)
  show "query_box g x1 x2 y1 y2 include_min include_max \<noteq> Inl OutOfRange"
    using assms by (rule query_box_not_OutOfRange)
  show "query_box_no_alloc g x1 x2 y1 y2 result append_results include_min include_max
        \<noteq> Inl OutOfRange"
    using assms by (rule query_variants_not_OutOfRange)
  show "query_box_callback g x1 x2 y1 y2 callback s include_min include_max \<noteq> Inl OutOfRange"
    using assms by (rule query_variants_not_OutOfRange)
next
  fix i_min i_max j_min j_max
  assume r: "get_cell_range g x1 x2 y1 y2 include_min include_max = Inr (i_min, i_max, j_min, j_max)"
  note b = get_cell_range_bounds [OF assms r]
  show "0 \<le> i_min" "i_min \<le> nx g - 1" "0 \<le> i_max" "i_max \<le> nx g - 1"
    "0 \<le> j_min" "j_min \<le> ny g - 1" "0 \<le> j_max" "j_max \<le> ny g - 1"
    by (rule b)+
  fix i j
  assume "i_min \<le> i \<and> i \<le> i_max \<and> j_min \<le> j \<and> j \<le> j_max"
  with b have ij: "0 \<le> i" "i \<le> nx g - 1" "0 \<le> j" "j \<le> ny g - 1"
    by linarith+
  show "0 \<le> get_cell_id g i j" "get_cell_id g i j < nx g * ny g" "in_grid g (get_cell_id g i j)"
    using cell_id_bounds [OF assms ij] cell_id_in_grid [OF assms ij] by blast+
qed


section \<open>Dimensions and construction\<close>

text \<open>
  Over exact coordinates, for every constructed grid, also after any insertions,
  \<open>dimensions()\<close> is \<open>(ceil((x_end - x_start) / x_step), ceil((y_end - y_start) / y_step))\<close>,
  both components are at least 1, and \<open>count_cells()\<close> is \<open>nx * ny\<close>.
\<close>

lemma dimensions_exact:
  assumes "GridIndex2D_new xs xe xst ys ye yst = Inr g0" and "insert_all g0 ps = Inr g"
  shows "get_dimensions g = (\<lceil>(xe - xs) / xst\<rceil>, \<lceil>(ye - ys) / yst\<rceil>)
    \<and> get_dimensions g0 = get_dimensions g
    \<and> 1 \<le> fst (get_dimensions g) \<and> 1 \<le> snd (get_dimensions g)
    \<and> int (get_num_cells g) = fst (get_dimensions g) * snd (get_dimensions g)
    \<and> get_num_cells g0 = get_num_cells g"
proof -
  have inv0: "grid_inv g0" using assms(1) by (rule construct_inv)
  then have inv: "grid_inv g" using insert_all_facts(2) [OF assms(2)] by simp
  have d0: "get_dimensions g0 = (\<lceil>(xe - xs) / xst\<rceil>, \<lceil>(ye - ys) / yst\<rceil>)"
    by (subst construct_Inr(1) [OF assms(1)]) (simp add: get_dimensions_def)
  have d: "get_dimensions g = get_dimensions g0"
    using assms(2) by (rule insert_all_facts)
  have n: "nx g = nx g0" "ny g = ny g0"
    using insert_all_facts(9,10) [OF assms(2)] by simp_all
  have "int (get_num_cells g) = nx g * ny g" "int (get_num_cells g0) = nx g0 * ny g0"
    using inv inv0 by (simp_all add: grid_inv_def get_num_cells_def)
  moreover have "1 \<le> nx g" "1 \<le> ny g"
    using inv by (simp_all add: grid_inv_def)
  ultimately show ?thesis
    using d d0 n by (simp add: get_dimensions_def)
qed








section \<open>Queries outside the bounds\<close>

text \<open>
  C10. A query rectangle that lies entirely outside the grid can return points: in the
  grid with bounds \<open>[0,10)\<close> and step 1 holding one point at \<open>(1/2, 1/2)\<close>, the query
  \<open>[-5,-3] \<times> [-5,-3]\<close>, whose \<open>x2\<close> is below \<open>x_start\<close>, resolves to the corner cell
  \<open>(0, 0)\<close> and returns that point.
\<close>

theorem C10_outside_query_nonempty:
  "and_then (GridIndex2D_new (0::rat) 10 1 0 10 1) (\<lambda>g.
   and_then (insert_point g (1/2) (1/2) 7) (\<lambda>g.
     Inr (- 3 < x_start g, get_cell_range g (- 5) (- 3) (- 5) (- 3) True True,
          query_box g (- 5) (- 3) (- 5) (- 3) True True)))
   = Inr (True, Inr (0, 0, 0, 0), Inr [7])"
  by code_simp

section \<open>Clearing\<close>

lemma clear_fields [simp]:
  "x_start (clear g) = x_start g" "x_end (clear g) = x_end g" "x_step (clear g) = x_step g"
  "y_start (clear g) = y_start g" "y_end (clear g) = y_end g" "y_step (clear g) = y_step g"
  "nx (clear g) = nx g" "ny (clear g) = ny g"
  "length (grid (clear g)) = length (grid g)"
  by (simp_all add: clear_def)

lemma clear_inv: "grid_inv (clear g) = grid_inv g"
  by (simp add: grid_inv_def)

lemma clear_get_cell_range:
  "get_cell_range (clear g) x1 x2 y1 y2 a b = get_cell_range g x1 x2 y1 y2 a b"
  by (simp add: get_cell_range_def)

lemma clear_raw: "raw_x (clear g) x = raw_x g x" "raw_y (clear g) y = raw_y g y"
  by (simp_all add: raw_x_def raw_y_def)

lemma clear_num_points: "get_num_points (clear g) = 0"
  by (simp add: get_num_points_sum clear_def o_def)

lemma clear_cell: "in_grid g c \<Longrightarrow> grid (clear g) ! nat c = []"
  by (simp add: clear_def in_grid_def nat_less_iff)

lemma clear_in_grid: "in_grid (clear g) c = in_grid g c"
  by (simp add: in_grid_def)

lemma clear_get_cell_id: "get_cell_id (clear g) i j = get_cell_id g i j"
  by (simp add: get_cell_id_def)

lemma clear_box_ok: "box_ok (clear g) i_min i_max j j_max = box_ok g i_min i_max j j_max"
  by (simp add: box_ok_def row_ok_def clear_in_grid clear_get_cell_id)

lemma clear_box_cells:
  "box_ok g i_min i_max j j_max \<Longrightarrow> box_cells (clear g) i_min i_max j j_max = []"
  by (auto simp: box_ok_def row_ok_def box_cells_def row_cells_def list_all_iff
      clear_get_cell_id clear_cell)

lemma clear_query_box:
  assumes "grid_inv g"
  shows "query_box (clear g) x1 x2 y1 y2 a b =
           and_then (get_cell_range g x1 x2 y1 y2 a b) (\<lambda>r. Inr [])"
proof (cases "get_cell_range g x1 x2 y1 y2 a b")
  case (Inl e)
  then show ?thesis by (simp add: query_box_eq clear_get_cell_range)
next
  case (Inr r)
  obtain i_min i_max j_min j_max where r: "r = (i_min, i_max, j_min, j_max)"
    by (cases r) auto
  have "box_ok g i_min i_max j_min j_max"
    using assms Inr unfolding r by (rule box_ok_cell_range)
  then show ?thesis
    using Inr r by (simp add: query_box_eq clear_get_cell_range clear_box_ok clear_box_cells)
qed

lemma clear_clear: "clear (clear g) = clear g"
  by (simp add: clear_def)

text \<open>
  What \<open>clear()\<close> does, for every grid state reached from a constructed grid by a
  sequence of insertions: \<open>count_points()\<close> is 0; \<open>dimensions()\<close> and \<open>bounds()\<close>
  are what they were; every query whose four corner coordinates have raw cell indices
  \<open>floor((v - start) / step)\<close> strictly between \<open>INT_MIN\<close> and \<open>INT_MAX\<close> returns an
  empty result in each variant (the callback is never called); a query on any other rectangle
  returns an empty result or is undefined, never a point.
\<close>

lemma clear_then_query:
  assumes "GridIndex2D_new xs xe xst ys ye yst = Inr g0" and "insert_all g0 ps = Inr g"
  shows "get_num_points (clear g) = 0
    \<and> get_dimensions (clear g) = get_dimensions g
    \<and> get_bounds (clear g) = get_bounds g
    \<and> (fits_int (raw_x g x1) \<and> fits_int (raw_x g x2)
        \<and> fits_int (raw_y g y1) \<and> fits_int (raw_y g y2)
        \<longrightarrow> query_box (clear g) x1 x2 y1 y2 include_min include_max = Inr []
          \<and> query_box_no_alloc (clear g) x1 x2 y1 y2 result False include_min include_max = Inr []
          \<and> query_box_callback (clear g) x1 x2 y1 y2 callback s include_min include_max = Inr s)
    \<and> (query_box (clear g) x1 x2 y1 y2 include_min include_max = Inr []
        \<or> query_box (clear g) x1 x2 y1 y2 include_min include_max = Inl IntOverflow)"
proof -
  have "grid_inv g0" using assms(1) by (rule construct_inv)
  then have inv: "grid_inv g" using insert_all_facts(2) [OF assms(2)] by simp
  note q = clear_query_box [OF inv, of x1 x2 y1 y2 include_min include_max]
  have fit: "query_box (clear g) x1 x2 y1 y2 include_min include_max = Inr []"
    if "fits_int (raw_x g x1)" "fits_int (raw_x g x2)" "fits_int (raw_y g y1)" "fits_int (raw_y g y2)"
    using q get_cell_range_Inr [OF that, of include_min include_max] by simp
  have any: "query_box (clear g) x1 x2 y1 y2 include_min include_max = Inr []
        \<or> query_box (clear g) x1 x2 y1 y2 include_min include_max = Inl IntOverflow"
    using q by (cases "get_cell_range g x1 x2 y1 y2 include_min include_max")
      (auto dest: get_cell_range_Inl)
  show ?thesis
    using fit any
    by (simp add: clear_num_points get_dimensions_def get_bounds_def
        query_box_no_alloc_query_box query_box_callback_fold)
qed

section \<open>Counting\<close>

lemma construct_num_points:
  assumes "GridIndex2D_new xs xe xst ys ye yst = Inr g"
  shows "get_num_points g = 0"
  by (subst construct_Inr(1) [OF assms]) (simp add: get_num_points_sum)

lemma count_after_inserts:
  assumes "GridIndex2D_new xs xe xst ys ye yst = Inr g0" and "insert_all g0 ps = Inr g"
  shows "get_num_points g = length ps"
  using insert_all_facts(1) [OF assms(2)] construct_num_points [OF assms(1)] by simp

lemma insert_point_raw:
  assumes "insert_point g x y idx = Inr g'"
  shows "raw_x g' = raw_x g" "raw_y g' = raw_y g"
  using insert_point_facts(5-8) [OF assms] by (simp_all add: raw_x_def raw_y_def fun_eq_iff)

lemma insert_all_Inr:
  assumes "grid_inv g"
    and "list_all (\<lambda>(x, y, idx). INT_MIN \<le> raw_x g x \<and> raw_x g x \<le> INT_MAX
            \<and> INT_MIN \<le> raw_y g y \<and> raw_y g y \<le> INT_MAX) ps"
  shows "\<exists>g'. insert_all g ps = Inr g'"
  using assms
proof (induction ps arbitrary: g)
  case Nil
  then show ?case by simp
next
  case (Cons p ps)
  obtain x y idx where p: "p = (x, y, idx)" by (cases p)
  from Cons.prems have fit: "INT_MIN \<le> raw_x g x" "raw_x g x \<le> INT_MAX"
    "INT_MIN \<le> raw_y g y" "raw_y g y \<le> INT_MAX"
    by (simp_all add: p)
  from insert_point_Inr(2) [OF Cons.prems(1) fit, of idx]
  obtain h where h: "insert_point g x y idx = Inr h" by blast
  have "grid_inv h" using insert_point_facts(2) [OF h] Cons.prems(1) by simp
  moreover have "list_all (\<lambda>(x, y, idx). INT_MIN \<le> raw_x h x \<and> raw_x h x \<le> INT_MAX
            \<and> INT_MIN \<le> raw_y h y \<and> raw_y h y \<le> INT_MAX) ps"
    using Cons.prems(2) by (simp add: p insert_point_raw [OF h])
  ultimately obtain g' where "insert_all h ps = Inr g'"
    using Cons.IH by blast
  with h show ?case by (simp add: p)
qed

text \<open>
  What \<open>insert\<close> does when the raw cell indices \<open>floor((v - start) / step)\<close> of the point
  fit \<open>int\<close>: it succeeds, the bucket at the clamped cell grows by the identifier at its end,
  every other bucket and the bounds and dimensions stay, and the number of points grows by one.
\<close>

lemma insert_point_in_range:
  assumes "grid_inv g"
    and "INT_MIN \<le> raw_x g x" "raw_x g x \<le> INT_MAX"
    and "INT_MIN \<le> raw_y g y" "raw_y g y \<le> INT_MAX"
    and c: "c = nat (get_cell_id g (clamp (nx g) (raw_x g x)) (clamp (ny g) (raw_y g y)))"
  shows "\<exists>g'. insert_point g x y idx = Inr g'
    \<and> c < length (grid g) \<and> length (grid g') = length (grid g)
    \<and> grid g' ! c = grid g ! c @ [idx]
    \<and> (\<forall>d < length (grid g). d \<noteq> c \<longrightarrow> grid g' ! d = grid g ! d)
    \<and> get_num_points g' = get_num_points g + 1
    \<and> get_dimensions g' = get_dimensions g \<and> get_bounds g' = get_bounds g"
proof -
  note i1 = insert_point_Inr(1) [OF assms(1-5)]
  note i2 = insert_point_Inr(2) [OF assms(1-5), of idx]
  have "c < length (grid g)"
    using i1 by (simp add: c in_grid_def nat_less_iff)
  then show ?thesis
    using i2 insert_point_facts(1,3,4) [OF i2] unfolding c [symmetric]
    by simp
qed

text \<open>
  C6. \<open>insert\<close> should never fail, and should append to the bucket at the clamped cell, for
  every finite point. \<open>get_cell_x\<close> converts the raw cell index to \<open>int\<close> before it clamps
  it, so in the grid with bounds \<open>[0,10)\<close> and step 1 the point \<open>(3000000000, 5)\<close>, whose
  raw index 3000000000 is beyond \<open>INT_MAX\<close>, has no defined result, while the point
  \<open>(200, 5)\<close> is clamped into the last column.
\<close>

theorem C6_far_point:
  "and_then (GridIndex2D_new (0::rat) 10 1 0 10 1) (\<lambda>g.
     Inr (get_cell_x g 200, get_cell_x g 3000000000,
          and_then (insert_point g 200 5 1) (\<lambda>g'. Inr (get_num_points g')),
          and_then (insert_point g 3000000000 5 1) (\<lambda>g'. Inr (get_num_points g'))))
   = Inr (Inr 9, Inl IntOverflow, Inr 1, Inl IntOverflow)"
  by code_simp

section \<open>Coinciding boundaries\<close>













section \<open>Binary64 rounding\<close>

lemma pow2_pos [simp]: "0 < pow2 k"
  by (simp add: pow2_def)

lemma pow2_nonneg [simp]: "0 \<le> pow2 k"
  using pow2_pos [of k] by (rule less_imp_le)

lemma pow2_neq_0 [simp]: "pow2 k \<noteq> 0"
  by (simp add: pow2_def)

lemma abs_pow2 [simp]: "\<bar>pow2 k\<bar> = pow2 k"
  by (rule abs_of_nonneg) simp

lemma pow2_add: "pow2 (a + b) = pow2 a * pow2 b"
  by (simp add: pow2_def power_int_add)

lemma pow2_less: "a < b \<Longrightarrow> pow2 a < pow2 b"
  by (simp add: pow2_def power_int_strict_increasing)

lemma pow2_le: "a \<le> b \<Longrightarrow> pow2 a \<le> pow2 b"
  by (simp add: pow2_def power_int_increasing)

lemma pow2_less_cancel: "pow2 a < pow2 b \<Longrightarrow> a < b"
  using pow2_le [of b a] by (cases "a < b") simp_all

lemma binade_from_found:
  "e \<le> s \<Longrightarrow> s - int n \<le> e \<Longrightarrow> pow2 e \<le> a \<Longrightarrow> a < pow2 (e + 1)
     \<Longrightarrow> binade_from a s n = e"
proof (induction n arbitrary: s)
  case 0
  then show ?case by simp
next
  case (Suc n)
  show ?case
  proof (cases "pow2 s \<le> a")
    case True
    with Suc.prems(4) have "pow2 s < pow2 (e + 1)" by simp
    then have "s < e + 1" by (rule pow2_less_cancel)
    with Suc.prems(1) True show ?thesis by simp
  next
    case False
    with Suc.prems(3) have "s \<noteq> e" by auto
    with Suc.prems(1,2) have "e \<le> s - 1" "s - 1 - int n \<le> e" by simp_all
    then have "binade_from a (s - 1) n = e"
      using Suc.prems(3,4) by (rule Suc.IH)
    with False show ?thesis by simp
  qed
qed

lemma binade_from_bottom:
  "a < pow2 (s - int n + 1) \<Longrightarrow> binade_from a s n = s - int n"
proof (induction n arbitrary: s)
  case 0
  then show ?case by simp
next
  case (Suc n)
  have "pow2 (s - int (Suc n) + 1) \<le> pow2 s" by (rule pow2_le) simp
  with Suc.prems have "\<not> pow2 s \<le> a" by simp
  moreover have "binade_from a (s - 1) n = s - 1 - int n"
    using Suc.prems by (intro Suc.IH) (simp add: algebra_simps)
  ultimately show ?case by simp
qed

lemma binade_eq:
  assumes "- 1022 \<le> e" "e \<le> 1023" "pow2 e \<le> \<bar>v\<bar>" "\<bar>v\<bar> < pow2 (e + 1)"
  shows "binade v = e"
  unfolding binade_def using assms by (intro binade_from_found) simp_all

lemma binade_subnormal:
  assumes "\<bar>v\<bar> < pow2 (- 1021)"
  shows "binade v = - 1022"
  unfolding binade_def using assms binade_from_bottom [of "\<bar>v\<bar>" 1023 2045] by simp

lemma round_half_even_of_int [simp]: "round_half_even (of_int m) = m"
  by (simp add: round_half_even_def)

lemma round_half_even_small:
  assumes "\<bar>x\<bar> < 1 / 2"
  shows "round_half_even x = 0"
proof (cases "0 \<le> x")
  case True
  with assms have "\<lfloor>x\<rfloor> = 0" by (intro floor_unique) simp_all
  with assms True show ?thesis by (simp add: round_half_even_def)
next
  case False
  with assms have "\<lfloor>x\<rfloor> = - 1" by (intro floor_unique) simp_all
  with assms False show ?thesis by (simp add: round_half_even_def)
qed


text \<open>A result below half the smallest subnormal rounds to zero.\<close>

lemma binary64_underflow:
  assumes "\<bar>v\<bar> < pow2 (- 1075)"
  shows "binary64 v = 0"
proof (cases "v = 0")
  case True
  then show ?thesis by (simp add: binary64_def)
next
  case False
  have "pow2 (- 1075) \<le> pow2 (- 1021)" by (rule pow2_le) simp
  with assms have b: "binade v = - 1022" by (intro binade_subnormal) simp
  have "pow2 (- 1075) = pow2 (- 1074) * (1 / 2)"
    using pow2_add [of "- 1074" "- 1"] by (simp add: pow2_def)
  with assms have "\<bar>v / pow2 (- 1074)\<bar> < 1 / 2"
    by (simp add: field_simps abs_mult)
  then have "round_half_even (v / pow2 (- 1074)) = 0"
    by (rule round_half_even_small)
  with False b show ?thesis by (simp add: binary64_def)
qed

text \<open>A value with a significand of 53 bits and an exponent in range is not changed.\<close>

lemma binary64_exact:
  assumes v: "v = of_int m * pow2 k"
    and m: "4503599627370496 \<le> \<bar>m\<bar>" "\<bar>m\<bar> < 9007199254740992"
    and k: "- 1074 \<le> k" "k \<le> 971"
  shows "binary64 v = v"
proof -
  have p52: "pow2 52 = 4503599627370496" and p53: "pow2 53 = 9007199254740992"
    by (simp_all add: pow2_def)
  have av: "\<bar>v\<bar> = of_int \<bar>m\<bar> * pow2 k"
    by (simp add: v abs_mult)
  have "pow2 (k + 52) = of_int 4503599627370496 * pow2 k"
    by (simp add: pow2_add p52)
  also have "\<dots> \<le> of_int \<bar>m\<bar> * pow2 k"
    using m(1) by (intro mult_right_mono) (simp_all add: of_int_le_iff [symmetric] del: of_int_le_iff)
  finally have lo: "pow2 (k + 52) \<le> \<bar>v\<bar>" by (simp add: av)
  have "of_int \<bar>m\<bar> * pow2 k < of_int 9007199254740992 * pow2 k"
    using m(2) by (intro mult_strict_right_mono) simp_all
  also have "\<dots> = pow2 (k + 52 + 1)"
    using pow2_add [of 53 k] by (simp add: p53 add.commute)
  finally have hi: "\<bar>v\<bar> < pow2 (k + 52 + 1)" by (simp add: av)
  have b: "binade v = k + 52"
    using k lo hi by (intro binade_eq) simp_all
  have "0 < \<bar>v\<bar>" using pow2_pos [of "k + 52"] lo by (rule less_le_trans)
  then have nz: "v \<noteq> 0" by simp
  have q: "v / pow2 k = of_int m" by (simp add: v)
  have "binary64 v = of_int (round_half_even (v / pow2 k)) * pow2 k"
    using nz k(1) by (simp add: binary64_def b Let_def)
  also have "\<dots> = v" by (simp add: q) (simp add: v)
  finally show ?thesis .
qed


section \<open>The constructor on doubles\<close>

lemma binary64_one: "binary64 1 = 1"
  by (rule binary64_exact [of 1 4503599627370496 "- 52"]) (simp_all add: pow2_def)

lemma binary64_ten: "binary64 10 = 10"
  by (rule binary64_exact [of 10 5629499534213120 "- 49"]) (simp_all add: pow2_def)

lemma double_1e_minus_200_exact: "binary64 double_1e_minus_200 = double_1e_minus_200"
  by (rule binary64_exact [of _ 6894565328877484 "- 717"])
     (simp_all add: double_1e_minus_200_def)

lemma double_1e200_exact: "binary64 double_1e200 = double_1e200"
  by (rule binary64_exact [of _ 5883593420661338 612])
     (simp_all add: double_1e200_def)

lemma double_pos: "0 < double_1e_minus_200" "0 < double_1e200"
  by (simp_all add: double_1e_minus_200_def double_1e200_def)

lemma quotient_underflows: "\<bar>double_1e_minus_200 / double_1e200\<bar> < pow2 (- 1075)"
proof -
  have "pow2 (- 717) = pow2 (- 1329) * pow2 612"
    using pow2_add [of "- 1329" 612] by simp
  then have "double_1e_minus_200 / double_1e200
      = (6894565328877484 / 5883593420661338) * pow2 (- 1329)"
    by (simp add: double_1e_minus_200_def double_1e200_def)
  also have "\<dots> < 2 * pow2 (- 1329)"
    by (intro mult_strict_right_mono) simp_all
  also have "\<dots> = pow2 (- 1328)"
    using pow2_add [of 1 "- 1329"] by (simp add: pow2_def)
  also have "\<dots> \<le> pow2 (- 1075)"
    by (rule pow2_le) simp
  finally have "double_1e_minus_200 / double_1e200 < pow2 (- 1075)" .
  moreover have "0 \<le> double_1e_minus_200 / double_1e200"
    using double_pos by simp
  ultimately show ?thesis by simp
qed

lemma double_new_no_cells:
  "GridIndex2D_double_new 0 double_1e_minus_200 double_1e200 0 1 1 = Inr grid_no_cells"
  using double_pos
  by (simp add: GridIndex2D_double_new_def double_1e_minus_200_exact
      binary64_underflow [OF quotient_underflows] binary64_one grid_no_cells_def int_simps)


lemma double_new_exact:
  assumes "binary64 (xe - xs) = xe - xs" "binary64 ((xe - xs) / xst) = (xe - xs) / xst"
    and "binary64 (ye - ys) = ye - ys" "binary64 ((ye - ys) / yst) = (ye - ys) / yst"
  shows "GridIndex2D_double_new xs xe xst ys ye yst = GridIndex2D_new xs xe xst ys ye yst"
  by (simp add: GridIndex2D_double_new_def GridIndex2D_new_def assms)

text \<open>
  On the bounds and steps of the grids evaluated with \<open>GridIndex2D_new\<close> no operation
  rounds, and the two constructors agree.
\<close>

lemma binary64_3e9: "binary64 3000000000 = 3000000000"
  by (rule binary64_exact [of 3000000000 6291456000000000 "- 21"]) (simp_all add: pow2_def)

lemma double_new_examples:
  "GridIndex2D_double_new 0 10 1 0 10 1 = GridIndex2D_new 0 10 1 0 10 1"
  "GridIndex2D_double_new 0 10 10 0 10 10 = GridIndex2D_new 0 10 10 0 10 10"
  "GridIndex2D_double_new 0 3000000000 1 0 1 1 = GridIndex2D_new 0 3000000000 1 0 1 1"
  by (rule double_new_exact; simp add: binary64_ten binary64_one binary64_3e9)+

lemma no_cells_range: "get_cell_range grid_no_cells 0 0 0 0 True True = Inr (0, 0, 0, 0)"
  by (simp add: get_cell_range_def grid_no_cells_def int_simps)

lemma no_cells_query: "query_box grid_no_cells 0 0 0 0 True True = Inl OutOfRange"
  by (subst query_box_eq, subst no_cells_range)
     (simp add: box_ok_def row_ok_def in_grid_def grid_no_cells_def get_cell_id_def)











text \<open>
  C9. No query should read outside the bucket vector. On the grid without buckets that the
  constructor returns for the bounds \<open>[0, 1e-200)\<close> and step \<open>1e200\<close>, \<open>get_cell_range\<close>
  clamps every index to 0, since \<open>nx - 1\<close> is \<open>-1\<close>, and \<open>query_box\<close> reads
  \<open>grid_[0]\<close> of the empty vector.
\<close>

theorem C9_read_without_buckets:
  "and_then (GridIndex2D_double_new 0 double_1e_minus_200 double_1e200 0 1 1)
     (\<lambda>g. Inr (get_num_cells g, get_cell_range g 0 0 0 0 True True,
                query_box g 0 0 0 0 True True))
   = Inr (0, Inr (0, 0, 0, 0), Inl OutOfRange)"
  by (simp add: double_new_no_cells no_cells_range no_cells_query)
     (simp add: grid_no_cells_def get_num_cells_def)

text \<open>
  C7. After \<open>clear()\<close> every query should return an empty result. On the grid without
  buckets that the constructor returns for the bounds \<open>[0, 1e-200)\<close> and step \<open>1e200\<close>,
  \<open>clear()\<close> has nothing to empty and \<open>count_points()\<close> is 0, but \<open>query_box\<close> reads
  \<open>grid_[0]\<close> of the empty vector instead of returning.
\<close>

theorem C7_query_after_clear_without_buckets:
  "and_then (GridIndex2D_double_new 0 double_1e_minus_200 double_1e200 0 1 1)
     (\<lambda>g. Inr (get_num_points (clear g), query_box (clear g) 0 0 0 0 True True))
   = Inr (0, Inl OutOfRange)"
proof -
  have "clear grid_no_cells = grid_no_cells"
    by (simp add: clear_def grid_no_cells_def)
  moreover have "get_num_points grid_no_cells = 0"
    by (simp add: get_num_points_def grid_no_cells_def)
  ultimately show ?thesis
    by (simp add: double_new_no_cells no_cells_query)
qed

end
